theory Spec2Isabelle
  imports Main
begin

section \<open>The standard-library primitive behind \<open>ara::core::Future\<close>\<close>

text \<open>
  \<open>Future<T, E>\<close> (src/include/public/ara/core/future.h) has one data member,
  \<open>std::future<T> future_\<close>, and forwards to it. The embedding therefore starts with the
  part of \<open>std::future\<close> and of its shared state that the header relies on.

  An exception travelling through \<open>std::future<T>::get()\<close> is either a
  \<open>std::future_error\<close>, of which the handler of \<open>GetResult\<close> reads
  \<open>ex.code().value()\<close> (an \<open>int\<close>), or an exception of any other type, which the
  producer stored with \<open>set_exception\<close>.
\<close>

datatype std_exception =
    Future_error int   \<comment> \<open>\<open>std::future_error\<close>, with \<open>code().value()\<close>\<close>
  | Other_exception nat   \<comment> \<open>an exception object of any other type\<close>

text \<open>
  The enumerators of \<open>std::future_errc\<close>. Their numerical values are
  implementation-defined (distinct and non-zero); the values below are those of
  libstdc++. The header switches on \<open>static_cast<std::future_errc>(ex.code().value())\<close>,
  so that only their being pairwise distinct matters.
\<close>

definition std_future_already_retrieved :: int where
  "std_future_already_retrieved = 1"

definition std_promise_already_satisfied :: int where
  "std_promise_already_satisfied = 2"

definition std_no_state :: int where
  "std_no_state = 3"

definition std_broken_promise :: int where
  "std_broken_promise = 4"

lemmas std_future_errc_defs =
  std_future_already_retrieved_def std_promise_already_satisfied_def
  std_no_state_def std_broken_promise_def

text \<open>
  The shared state of a \<open>std::promise<T>\<close>/\<open>std::future<T>\<close> pair: not ready, or ready
  with a value, or ready with a stored exception. A producer destroyed before publishing
  stores \<open>std::future_error(broken_promise)\<close> and makes the state ready; that is the
  state the specification calls abandoned.
\<close>

datatype 't shared_state =
    Not_ready
  | Ready_value 't
  | Ready_exception std_exception

text \<open>Shared states live in a store and are referred to by their index.\<close>

type_synonym 't store = "nat \<Rightarrow> 't shared_state"

text \<open>
  A \<open>std::future<T>\<close> is a reference to a shared state, or refers to none
  (\<open>valid() == false\<close>: default-constructed, moved-from, or after \<open>get()\<close>).
\<close>

type_synonym std_future = "nat option"

text \<open>How a call that may throw and may block ends.\<close>

datatype 'r call =
    Returns 'r
  | Throws std_exception
  | Blocks   \<comment> \<open>the shared state is not ready: the caller waits for the producer\<close>

text \<open>
  \<open>std::future<T>::get()\<close>: waits until the shared state is ready, then returns the
  stored value or throws the stored exception; in both cases the shared state is released
  (\<open>valid() == false\<close> afterwards). ISO C++ leaves \<open>get()\<close> on a future without shared
  state undefined and encourages implementations to throw
  \<open>future_error(no_state)\<close>; libstdc++ and the MSVC library do, and the \<open>no_state\<close>
  case of \<open>GetResult\<close> relies on it. The model follows them.
\<close>

fun std_future_get :: "'t store \<Rightarrow> std_future \<Rightarrow> 't call \<times> std_future" where
  "std_future_get st None = (Throws (Future_error std_no_state), None)"
| "std_future_get st (Some s) =
     (case st s of
        Not_ready \<Rightarrow> (Blocks, Some s)
      | Ready_value v \<Rightarrow> (Returns v, None)
      | Ready_exception e \<Rightarrow> (Throws e, None))"

section \<open>\<open>ara::core::Future<T, E>\<close>\<close>

text \<open>
  \<open>enum class future_status : std::uint8_t { ready, timeout }\<close>: what \<open>wait_for\<close> and
  \<open>wait_until\<close> return.
\<close>

datatype future_status = ready | timeout

text \<open>
  Modelled from the spec: the enumeration \<open>ara::core::future_errc\<close> is declared in
  ara/core/future_error_domain.h, which is not among the sources. Its enumerators are the
  five that \<open>GetResult\<close> names; the specification's closed set of error kinds calls them
  BrokenLink, AlreadyRetrieved, NoState, AlreadySatisfied and Other (here
  \<open>kInvalidArgument\<close>, what the \<open>default\<close> label returns).
\<close>

datatype future_errc =
    broken_promise
  | future_already_retrieved
  | no_state
  | promise_already_satisfied
  | kInvalidArgument

text \<open>
  \<open>Result<T, E>\<close> (ara/core/result.h, an external container): built from a value by
  \<open>R{v}\<close> or from an error by \<open>R::FromError(e)\<close>. \<open>GetResult\<close> builds its errors from
  enumerators of \<open>future_errc\<close>; the conversion of the enumerator to \<open>E\<close> is left to
  that container, and the model keeps the enumerator.
\<close>

datatype ('t, 'e) Result =
    Result_value 't
  | Result_error 'e

text \<open>
  The class has the one member \<open>std::future<T> future_\<close>; a name cannot end in an
  underscore here, so the field is \<open>future_member\<close>.
\<close>

record Future =
  future_member :: std_future

text \<open>\<open>Future() noexcept = default\<close>: the member is default-constructed, without shared state.\<close>

definition Future_default :: Future where
  "Future_default = \<lparr>future_member = None\<rparr>"

text \<open>
  \<open>Future(Future&& other) noexcept { std::swap(other.future_, future_); }\<close>: the new
  object's member is default-constructed first, then swapped with the other's. The result
  is the new object and the other one after the call.
\<close>

definition Future_move :: "Future \<Rightarrow> Future \<times> Future" where
  "Future_move other =
     (let this = Future_default
      in (\<lparr>future_member = future_member other\<rparr>, \<lparr>future_member = future_member this\<rparr>))"

text \<open>\<open>T get() { return future_.get(); }\<close>\<close>

definition get :: "'t store \<Rightarrow> Future \<Rightarrow> 't call \<times> Future" where
  "get st this =
     (case std_future_get st (future_member this) of (c, fu) \<Rightarrow> (c, \<lparr>future_member = fu\<rparr>))"

text \<open>
  The \<open>switch\<close> of \<open>GetResult\<close> on the code of the caught \<open>std::future_error\<close>, in the
  order of its labels.
\<close>

definition classify :: "int \<Rightarrow> future_errc" where
  "classify error_code =
     (if error_code = std_broken_promise then broken_promise
      else if error_code = std_future_already_retrieved then future_already_retrieved
      else if error_code = std_no_state then no_state
      else if error_code = std_promise_already_satisfied then promise_already_satisfied
      else kInvalidArgument)"

text \<open>
  How a call of a \<open>noexcept\<close> function ends: no exception leaves it; one that would
  makes the runtime call \<open>std::terminate\<close>.
\<close>

datatype 'r noexcept_call =
    Returned 'r
  | Blocked
  | Terminated

text \<open>
  \<open>Result<T, E> GetResult() noexcept\<close>: \<open>try { return R{future_.get()}; }\<close> with a
  single handler, \<open>catch (const std::future_error& ex)\<close>. An exception of another type is
  not caught and meets the \<open>noexcept\<close> boundary.
\<close>

fun GetResult_handler :: "'t call \<Rightarrow> ('t, future_errc) Result noexcept_call" where
  "GetResult_handler (Returns v) = Returned (Result_value v)"
| "GetResult_handler (Throws (Future_error error_code)) =
     Returned (Result_error (classify error_code))"
| "GetResult_handler (Throws (Other_exception x)) = Terminated"
| "GetResult_handler Blocks = Blocked"

definition GetResult ::
  "'t store \<Rightarrow> Future \<Rightarrow> ('t, future_errc) Result noexcept_call \<times> Future" where
  "GetResult st this =
     (case std_future_get st (future_member this) of
        (c, fu) \<Rightarrow> (GetResult_handler c, \<lparr>future_member = fu\<rparr>))"

text \<open>
  Modelled from the spec: \<open>bool valid() const noexcept\<close> is declared in the header
  without a body. The specification: true iff the handle currently refers to a shared
  state; a pure query.
\<close>

definition valid :: "Future \<Rightarrow> bool" where
  "valid this = (future_member this \<noteq> None)"

text \<open>
  \<open>Future\<close> objects live at addresses; a \<open>heap\<close> maps the address of every live
  object to its value. Move assignment takes two references, which may be to the same
  object.
\<close>

type_synonym heap = "nat \<rightharpoonup> Future"

text \<open>
  How the body of a function declared to return a value ends: at a \<open>return\<close> statement,
  or by reaching its closing brace with none.
\<close>

datatype 'r end_of_body =
    Return_statement 'r
  | Flows_off_end

text \<open>
  \<open>Future& operator=(Future&& other) noexcept { future_ = std::move(other.future_); }\<close>.
  The one statement is the move assignment of \<open>std::future\<close>, as the standard specifies
  it: it releases the shared state of the target and hands over that of the right-hand
  side, and afterwards \<open>valid()\<close> of the right-hand side is false. Then control reaches
  the closing brace of a function declared to return \<open>Future&\<close>, with no \<open>return\<close>
  statement: what the program does from there on is undefined. The result is the heap
  at the moment control reaches the closing brace, and how the body ended (the address
  in a \<open>Return_statement\<close> is that of the object referred to).
\<close>

definition Future_move_assign :: "heap \<Rightarrow> nat \<Rightarrow> nat \<Rightarrow> heap \<times> nat end_of_body" where
  "Future_move_assign h this other =
     (case (h this, h other) of
        (Some t, Some ot) \<Rightarrow>
          (h(this \<mapsto> \<lparr>future_member = future_member ot\<rparr>,
             other \<mapsto> \<lparr>future_member = None\<rparr>),
           Flows_off_end)
      | _ \<Rightarrow> (h, Flows_off_end))"

section \<open>Producer, objects and calls in sequence\<close>

text \<open>
  Modelled from the spec: the producer handle (\<open>ara::core::Promise\<close>, an external
  collaborator, not among the sources) writes into the shared state. The specification:
  the transition from empty to ready is triggered once by the producer's publish
  operation; any second publish attempt fails with AlreadySatisfied and has no effect on
  the state; a producer released without ever publishing makes the state abandoned, which
  for the consumer is ready with the error BrokenLink. Each operation returns the error
  reported to the producer, if any, and the store.
\<close>

definition set_value :: "'t store \<Rightarrow> nat \<Rightarrow> 't \<Rightarrow> future_errc option \<times> 't store" where
  "set_value st s v =
     (case st s of
        Not_ready \<Rightarrow> (None, st(s := Ready_value v))
      | _ \<Rightarrow> (Some promise_already_satisfied, st))"

definition set_exception ::
  "'t store \<Rightarrow> nat \<Rightarrow> std_exception \<Rightarrow> future_errc option \<times> 't store" where
  "set_exception st s e =
     (case st s of
        Not_ready \<Rightarrow> (None, st(s := Ready_exception e))
      | _ \<Rightarrow> (Some promise_already_satisfied, st))"

definition abandon :: "'t store \<Rightarrow> nat \<Rightarrow> 't store" where
  "abandon st s =
     (case st s of
        Not_ready \<Rightarrow> st(s := Ready_exception (Future_error std_broken_promise))
      | _ \<Rightarrow> st)"

datatype 't producer_event =
    Publish_value nat 't   \<comment> \<open>the producer of a shared state publishes a value\<close>
  | Publish_error nat nat   \<comment> \<open>it publishes an error (an exception that is no \<open>future_error\<close>)\<close>
  | Abandon nat   \<comment> \<open>it is destroyed\<close>

fun producer_state :: "'t producer_event \<Rightarrow> nat" where
  "producer_state (Publish_value s v) = s"
| "producer_state (Publish_error s x) = s"
| "producer_state (Abandon s) = s"

fun producer_step :: "'t producer_event \<Rightarrow> 't store \<Rightarrow> 't store" where
  "producer_step (Publish_value s v) st = snd (set_value st s v)"
| "producer_step (Publish_error s x) st = snd (set_exception st s (Other_exception x))"
| "producer_step (Abandon s) st = abandon st s"

text \<open>
  A program state: the live \<open>Future\<close> objects, the shared states, the number of shared
  states created so far (the states of index \<open>next_state\<close> and above do not exist yet),
  and whether the program has run into undefined behaviour.
\<close>

record 't world =
  heap :: heap
  store :: "'t store"
  next_state :: nat
  undefined_behaviour :: bool

definition initial_world :: "'t world" where
  "initial_world =
     \<lparr>heap = Map.empty, store = (\<lambda>s. Not_ready), next_state = 0,
      undefined_behaviour = False\<rparr>"

text \<open>
  What a program does to \<open>Future\<close> objects, one call after the other. The header gives no
  way to build a \<open>Future\<close> that has a shared state (its constructors are the default and
  the move constructor): \<open>Make_channel\<close> is modelled from the spec, the paired creation of
  a producer and a consumer handle on a new shared state (section 6 of the
  specification). The other events on objects are the members the header defines. A call
  on an object that is not live, or a construction at the address of a live object, is
  not a call a program can make, and changes nothing. A call of \<open>get\<close> that throws leaves
  the caller to go on; after a call of \<open>GetResult\<close> that ends in \<open>std::terminate\<close> the
  program does nothing more, and the sequences here that go on all the same only add
  cases to what is proved of all sequences. A move assignment flows off the end of its
  body: from there on the behaviour of the program is undefined, nothing more is known
  of its \<open>Future\<close> objects, and no later event on them has an effect or is observed
  here. The producer's events are those of the external collaborator and are kept.
\<close>

datatype 't event =
    Make_channel nat   \<comment> \<open>a new shared state, and at this address a \<open>Future\<close> referring to it\<close>
  | Producer "'t producer_event"
  | Construct_default nat   \<comment> \<open>\<open>Future()\<close> at this address\<close>
  | Construct_move nat nat   \<comment> \<open>\<open>Future(Future&& other)\<close> at the first address, from the second\<close>
  | Assign_move nat nat   \<comment> \<open>\<open>operator=(Future&& other)\<close> on the first, from the second\<close>
  | Destroy nat   \<comment> \<open>\<open>~Future()\<close>\<close>
  | Call_get nat
  | Call_GetResult nat

fun step :: "'t event \<Rightarrow> 't world \<Rightarrow> 't world" where
  "step (Make_channel a) w =
     (if undefined_behaviour w then w
      else case heap w a of
        None \<Rightarrow> w\<lparr>heap := (heap w)(a \<mapsto> \<lparr>future_member = Some (next_state w)\<rparr>),
                   next_state := Suc (next_state w)\<rparr>
      | Some f \<Rightarrow> w)"
| "step (Producer pe) w =
     (if producer_state pe < next_state w
      then w\<lparr>store := producer_step pe (store w)\<rparr> else w)"
| "step (Construct_default a) w =
     (if undefined_behaviour w then w
      else case heap w a of
        None \<Rightarrow> w\<lparr>heap := (heap w)(a \<mapsto> Future_default)\<rparr>
      | Some f \<Rightarrow> w)"
| "step (Construct_move a b) w =
     (if undefined_behaviour w then w
      else case (heap w a, heap w b) of
        (None, Some other) \<Rightarrow>
          w\<lparr>heap := (heap w)(b \<mapsto> snd (Future_move other), a \<mapsto> fst (Future_move other))\<rparr>
      | _ \<Rightarrow> w)"
| "step (Assign_move a b) w =
     (if undefined_behaviour w then w
      else case (heap w a, heap w b) of
        (Some this, Some other) \<Rightarrow>
          (case Future_move_assign (heap w) a b of
             (h, Return_statement r) \<Rightarrow> w\<lparr>heap := h\<rparr>
           | (h, Flows_off_end) \<Rightarrow> w\<lparr>undefined_behaviour := True\<rparr>)
      | _ \<Rightarrow> w)"
| "step (Destroy a) w =
     (if undefined_behaviour w then w else w\<lparr>heap := (heap w)(a := None)\<rparr>)"
| "step (Call_get a) w =
     (if undefined_behaviour w then w
      else case heap w a of
        None \<Rightarrow> w
      | Some this \<Rightarrow> w\<lparr>heap := (heap w)(a \<mapsto> snd (get (store w) this))\<rparr>)"
| "step (Call_GetResult a) w =
     (if undefined_behaviour w then w
      else case heap w a of
        None \<Rightarrow> w
      | Some this \<Rightarrow> w\<lparr>heap := (heap w)(a \<mapsto> snd (GetResult (store w) this))\<rparr>)"

fun run :: "'t event list \<Rightarrow> 't world \<Rightarrow> 't world" where
  "run [] w = w"
| "run (e # es) w = run es (step e w)"

text \<open>
  What is observed of a retrieval: the shared state the object referred to when the call
  was made, and how the call ended, or that it blocks. A call that blocks changes
  nothing; what it returns once the producer has published is what a call made then
  returns.
\<close>

datatype 't observation =
    Get_observed std_future "'t call"
  | GetResult_observed std_future "('t, future_errc) Result noexcept_call"

fun observe :: "'t event \<Rightarrow> 't world \<Rightarrow> 't observation list" where
  "observe (Call_get a) w =
     (if undefined_behaviour w then []
      else case heap w a of
        None \<Rightarrow> []
      | Some this \<Rightarrow> [Get_observed (future_member this) (fst (get (store w) this))])"
| "observe (Call_GetResult a) w =
     (if undefined_behaviour w then []
      else case heap w a of
        None \<Rightarrow> []
      | Some this \<Rightarrow> [GetResult_observed (future_member this) (fst (GetResult (store w) this))])"
| "observe e w = []"

fun observations :: "'t event list \<Rightarrow> 't world \<Rightarrow> 't observation list" where
  "observations [] w = []"
| "observations (e # es) w = observe e w @ observations es (step e w)"

text \<open>The retrievals that delivered a value: from which shared state, and which value.\<close>

fun delivery :: "'t observation \<Rightarrow> (nat \<times> 't) list" where
  "delivery (Get_observed (Some s) (Returns v)) = [(s, v)]"
| "delivery (GetResult_observed (Some s) (Returned (Result_value v))) = [(s, v)]"
| "delivery ob = []"

definition deliveries :: "'t event list \<Rightarrow> 't world \<Rightarrow> (nat \<times> 't) list" where
  "deliveries es w = concat (map delivery (observations es w))"

definition deliveries_from :: "nat \<Rightarrow> 't event list \<Rightarrow> 't world \<Rightarrow> 't list" where
  "deliveries_from s es w = map snd (filter (\<lambda>d. fst d = s) (deliveries es w))"

subsection \<open>Members declared without a body\<close>

text \<open>
  Modelled from the spec: \<open>bool is_ready() const\<close> is declared in the header without a
  body. The specification: non-blocking; true iff a subsequent \<open>get\<close>, \<open>get_result\<close> or
  \<open>wait\<close> is guaranteed not to block; undefined if \<open>valid()\<close> is false (\<open>None\<close>).
\<close>

definition is_ready :: "'t store \<Rightarrow> Future \<Rightarrow> bool option" where
  "is_ready st this =
     (case future_member this of
        None \<Rightarrow> None
      | Some s \<Rightarrow> (case st s of Not_ready \<Rightarrow> Some False | _ \<Rightarrow> Some True))"

text \<open>
  Modelled from the spec: \<open>wait_for\<close> is declared in the header without a body. The
  specification: blocks up to the duration; returns Ready if the state became ready
  within that window, Timeout otherwise; does not consume the result. Time is counted in
  ticks; while the caller waits, the producer side makes at most one step per tick, and
  \<open>pes\<close> lists its coming steps. The call returns as soon as the state is ready, or when
  the duration is over (or the producer side has nothing left to do). Its result is the
  status (\<open>None\<close> on a \<open>Future\<close> without shared state, a contract violation), the
  program state at the return, and the producer steps still to come. The \<open>Future\<close> is not
  among the results: the member function is \<open>const\<close>.
\<close>

fun wait_for ::
  "'t world \<Rightarrow> Future \<Rightarrow> nat \<Rightarrow> 't producer_event list \<Rightarrow>
   future_status option \<times> 't world \<times> 't producer_event list" where
  "wait_for w this (Suc d) (pe # pes) =
     (case is_ready (store w) this of
        None \<Rightarrow> (None, w, pe # pes)
      | Some True \<Rightarrow> (Some ready, w, pe # pes)
      | Some False \<Rightarrow> wait_for (step (Producer pe) w) this d pes)"
| "wait_for w this d pes =
     (case is_ready (store w) this of
        None \<Rightarrow> (None, w, pes)
      | Some True \<Rightarrow> (Some ready, w, pes)
      | Some False \<Rightarrow> (Some timeout, w, pes))"

section \<open>Invariants of the program states\<close>

text \<open>Every \<open>Future\<close> that has a shared state refers to one that was created.\<close>

definition refs_allocated :: "'t world \<Rightarrow> bool" where
  "refs_allocated w =
     (\<forall>a f s. heap w a = Some f \<longrightarrow> future_member f = Some s \<longrightarrow> s < next_state w)"

text \<open>At most one live \<open>Future\<close> refers to a given shared state.\<close>

definition unique_owner :: "'t world \<Rightarrow> bool" where
  "unique_owner w =
     (\<forall>a b f g s. heap w a = Some f \<longrightarrow> heap w b = Some g \<longrightarrow>
        future_member f = Some s \<longrightarrow> future_member g = Some s \<longrightarrow> a = b)"

text \<open>No live \<open>Future\<close> refers to the shared state \<open>s\<close>.\<close>

definition no_owner :: "'t world \<Rightarrow> nat \<Rightarrow> bool" where
  "no_owner w s = (\<forall>a f. heap w a = Some f \<longrightarrow> future_member f \<noteq> Some s)"

text \<open>The values that one event delivers from the shared state \<open>s\<close>.\<close>

definition delivered_now :: "nat \<Rightarrow> 't event \<Rightarrow> 't world \<Rightarrow> 't list" where
  "delivered_now s e w =
     map snd (filter (\<lambda>d. fst d = s) (concat (map delivery (observe e w))))"

section \<open>Continuations\<close>

text \<open>
  Modelled from the spec: both overloads of \<open>then\<close> are declared in the header
  (\<open>auto then(F&& func)\<close>) without a body, and the engine that runs continuations is not
  among the sources. What follows is the specification's continuation engine (sections
  4.2 and 4.4), with the type-level dispatch on the continuation's return type \<open>U\<close>
  turned into a tagged value, as the design notes of the specification allow: all values
  are of the one type \<open>'t\<close>, all errors are exceptions, and the continuation says by the
  tag of what it returns whether \<open>U\<close> is a \<open>Future\<close>, a \<open>Result\<close> or any other type.
\<close>

datatype 't continuation_result =
    U_future std_future
  | U_result "('t, std_exception) Result"
  | U_plain 't

text \<open>
  Modelled from the spec: the continuation is called with the completed outcome of the
  future it was registered on, a value or an error.
\<close>

type_synonym 't continuation = "('t, std_exception) Result \<Rightarrow> 't continuation_result"

type_synonym 't completions = "(nat \<times> ('t, std_exception) Result) list"

text \<open>
  Modelled from the spec: the shared states with what the specification's data model
  attaches to them: \<open>cells\<close> their outcome; \<open>registered\<close> the continuation stored in a
  shared state, with the shared state of the future that \<open>then\<close> returned for it;
  \<open>forwards\<close>, for the shared state of an inner future that a continuation returned
  before it was ready, the shared state of the outer future that takes over its
  completion; \<open>created\<close> the number of shared states created so far.
\<close>

record 't engine =
  cells :: "'t store"
  registered :: "nat \<rightharpoonup> 't continuation \<times> nat"
  forwards :: "nat \<rightharpoonup> nat"
  created :: nat

text \<open>
  Modelled from the spec: the state of a shared state completed with an outcome, and
  whether a shared state is still empty.
\<close>

fun ready_with :: "('t, std_exception) Result \<Rightarrow> 't shared_state" where
  "ready_with (Result_value v) = Ready_value v"
| "ready_with (Result_error e) = Ready_exception e"


text \<open>
  Modelled from the spec: the unwrapping rule, for the future that \<open>then\<close> returned
  (shared state \<open>tgt\<close>) and what the continuation returned. A plain value and a \<open>Result\<close>
  complete it at once; an inner future that is ready completes it with the inner
  outcome; one that is not ready is followed, and completes it later; one without shared
  state is the contract violation NoState. The result is the engine and the completions
  that are now due.
\<close>

fun unwrap :: "'t engine \<Rightarrow> nat \<Rightarrow> 't continuation_result \<Rightarrow> 't engine \<times> 't completions" where
  "unwrap eng tgt (U_plain v) = (eng, [(tgt, Result_value v)])"
| "unwrap eng tgt (U_result r) = (eng, [(tgt, r)])"
| "unwrap eng tgt (U_future None) = (eng, [(tgt, Result_error (Future_error std_no_state))])"
| "unwrap eng tgt (U_future (Some i)) =
     (case cells eng i of
        Not_ready \<Rightarrow> (eng\<lparr>forwards := (forwards eng)(i \<mapsto> tgt)\<rparr>, [])
      | Ready_value v \<Rightarrow> (eng, [(tgt, Result_value v)])
      | Ready_exception e \<Rightarrow> (eng, [(tgt, Result_error e)]))"

text \<open>
  Modelled from the spec: the transition of the shared state \<open>s\<close> to ready with the
  outcome \<open>r\<close>. A registered continuation is invoked once, with the outcome, and its
  registration cleared; an outer future that follows \<open>s\<close> is due the same outcome.
\<close>

definition fire :: "'t engine \<Rightarrow> nat \<Rightarrow> ('t, std_exception) Result \<Rightarrow> 't engine \<times> 't completions" where
  "fire eng s r =
     (let eng1 = eng\<lparr>cells := (cells eng)(s := ready_with r)\<rparr>;
          fw = (case forwards eng s of None \<Rightarrow> [] | Some outer \<Rightarrow> [(outer, r)])
      in case registered eng s of
           None \<Rightarrow> (eng1, fw)
         | Some (func, tgt) \<Rightarrow>
             (case unwrap (eng1\<lparr>registered := (registered eng)(s := None)\<rparr>) tgt (func r) of
                (eng2, new) \<Rightarrow> (eng2, new @ fw)))"







section \<open>Scenarios\<close>

text \<open>
  A channel is created and the producer publishes an error (an exception that is not a
  \<open>std::future_error\<close>); the consumer calls \<open>GetResult\<close>.
\<close>

definition publish_error_and_retrieve :: "int event list" where
  "publish_error_and_retrieve =
     [Make_channel 0, Producer (Publish_error 0 7), Call_GetResult 0]"

text \<open>
  A channel is created and a value published; the consumer calls \<open>GetResult\<close> twice.
\<close>

definition retrieve_twice :: "int event list" where
  "retrieve_twice =
     [Make_channel 0, Producer (Publish_value 0 42), Call_GetResult 0, Call_GetResult 0]"

text \<open>
  A channel is created and a value published; the consumer calls \<open>get\<close> and then
  \<open>GetResult\<close>.
\<close>

definition get_then_GetResult :: "int event list" where
  "get_then_GetResult =
     [Make_channel 0, Producer (Publish_value 0 42), Call_get 0, Call_GetResult 0]"

text \<open>
  A channel is created, and a second \<open>Future\<close> by the default constructor; the second is
  move-assigned from the first: \<open>b = std::move(a)\<close>.
\<close>

definition move_assign_program :: "int event list" where
  "move_assign_program = [Make_channel 0, Construct_default 1, Assign_move 1 0]"





section \<open>Error classification\<close>

lemma classify_table:
  "classify std_broken_promise = broken_promise"
  "classify std_future_already_retrieved = future_already_retrieved"
  "classify std_no_state = no_state"
  "classify std_promise_already_satisfied = promise_already_satisfied"
  "c \<notin> {std_broken_promise, std_future_already_retrieved, std_no_state,
         std_promise_already_satisfied} \<Longrightarrow> classify c = kInvalidArgument"
  by (simp_all add: classify_def std_future_errc_defs)

section \<open>Retrieval through \<open>GetResult\<close>\<close>

lemma GetResult_blocks_iff_get_blocks:
  "fst (GetResult st this) = Blocked \<longleftrightarrow> fst (get st this) = Blocks"
proof (cases "std_future_get st (future_member this)")
  case (Pair c fu)
  then show ?thesis
  proof (cases c)
    case (Throws e)
    with Pair show ?thesis by (cases e) (simp_all add: GetResult_def get_def)
  qed (simp_all add: GetResult_def get_def)
qed

lemma GetResult_same_handle_as_get: "snd (GetResult st this) = snd (get st this)"
  by (simp add: GetResult_def get_def split: prod.splits)

lemma GetResult_of_value:
  "fst (get st this) = Returns v \<Longrightarrow> fst (GetResult st this) = Returned (Result_value v)"
  by (simp add: GetResult_def get_def split: prod.splits)

lemma GetResult_of_future_error:
  "fst (get st this) = Throws (Future_error c) \<Longrightarrow>
   fst (GetResult st this) = Returned (Result_error (classify c))"
  by (simp add: GetResult_def get_def split: prod.splits)

lemma std_future_get_handle:
  "snd (std_future_get st fu) = Some s \<Longrightarrow> fu = Some s"
  by (cases fu) (auto split: shared_state.splits)

lemma get_handle: "future_member (snd (get st this)) = Some s \<Longrightarrow> future_member this = Some s"
  using std_future_get_handle [of st "future_member this" s]
  by (simp add: get_def split: prod.splits)

lemma GetResult_handle:
  "future_member (snd (GetResult st this)) = Some s \<Longrightarrow> future_member this = Some s"
  using get_handle [of st this s] by (simp add: GetResult_same_handle_as_get)

lemma Future_move_handles:
  "future_member (fst (Future_move other)) = future_member other"
  "future_member (snd (Future_move other)) = None"
  by (simp_all add: Future_move_def Future_default_def)

lemma get_Returns_releases:
  "fst (get st this) = Returns v \<Longrightarrow> future_member (snd (get st this)) = None"
  by (cases "future_member this")
     (auto simp: get_def split: prod.splits shared_state.splits)

lemma GetResult_value_is_get:
  "fst (GetResult st this) = Returned (Result_value v) \<Longrightarrow> fst (get st this) = Returns v"
proof (cases "std_future_get st (future_member this)")
  case (Pair c fu)
  assume r: "fst (GetResult st this) = Returned (Result_value v)"
  show ?thesis
  proof (cases c)
    case (Returns x)
    with Pair r show ?thesis by (simp add: GetResult_def get_def)
  next
    case (Throws x)
    with Pair r show ?thesis by (cases x) (simp_all add: GetResult_def get_def)
  next
    case Blocks
    with Pair r show ?thesis by (simp add: GetResult_def get_def)
  qed
qed

lemma invalid_get:
  "\<not> valid this \<Longrightarrow> fst (get st this) = Throws (Future_error std_no_state)"
  by (simp add: valid_def get_def)

lemma invalid_GetResult:
  "\<not> valid this \<Longrightarrow> fst (GetResult st this) = Returned (Result_error no_state)"
  by (simp add: valid_def GetResult_def classify_def std_future_errc_defs)

lemma get_Returns_second:
  assumes "fst (get st this) = Returns v"
  shows "\<not> valid (snd (get st this)) \<and>
      fst (get st' (snd (get st this))) = Throws (Future_error std_no_state) \<and>
      fst (GetResult st' (snd (get st this))) = Returned (Result_error no_state)"
proof -
  from assms have i: "\<not> valid (snd (get st this))"
    by (simp add: valid_def get_Returns_releases)
  then show ?thesis
    by (simp add: invalid_get invalid_GetResult)
qed

lemma GetResult_abandoned:
  "future_member this = Some s \<Longrightarrow> st s = Not_ready \<Longrightarrow>
   fst (GetResult (abandon st s) this) = Returned (Result_error broken_promise)"
  by (simp add: GetResult_def abandon_def classify_table)

lemma GetResult_second_publish:
  "future_member this = Some s \<Longrightarrow> st s = Not_ready \<Longrightarrow>
   fst (set_value (snd (set_value st s v)) s v') = Some promise_already_satisfied \<and>
   fst (GetResult (snd (set_value (snd (set_value st s v)) s v')) this)
     = Returned (Result_value v)"
  by (simp add: set_value_def GetResult_def)

lemma GetResult_second_retrieval:
  assumes "fst (GetResult st this) = Returned (Result_value v)"
  shows "fst (GetResult st' (snd (GetResult st this))) = Returned (Result_error no_state)"
  using get_Returns_second [OF GetResult_value_is_get [OF assms], of st']
  by (simp add: GetResult_same_handle_as_get)

text \<open>
  C2 (as amended). The classification that \<open>GetResult\<close> performs is defined on every code
  of a \<open>std::future_error\<close> that \<open>future_.get()\<close> throws: \<open>GetResult\<close> then returns the
  error \<open>broken_promise\<close> for the code broken_promise, \<open>future_already_retrieved\<close> for
  future_already_retrieved, \<open>no_state\<close> for no_state, \<open>promise_already_satisfied\<close> for
  promise_already_satisfied, and \<open>kInvalidArgument\<close> (the kind the specification calls
  Other) for every other code. By the conditions: a producer destroyed before publishing
  gives \<open>broken_promise\<close>; an operation on an invalid handle gives \<open>no_state\<close>, and so
  does a second retrieval, the first having released the shared state; a second
  publish is reported to the producer as \<open>promise_already_satisfied\<close> and \<open>GetResult\<close>
  returns the value published first.
\<close>

theorem GetResult_classification:
  "(fst (get st this) = Throws (Future_error c) \<longrightarrow>
      (c = std_broken_promise \<longrightarrow>
         fst (GetResult st this) = Returned (Result_error broken_promise)) \<and>
      (c = std_future_already_retrieved \<longrightarrow>
         fst (GetResult st this) = Returned (Result_error future_already_retrieved)) \<and>
      (c = std_no_state \<longrightarrow>
         fst (GetResult st this) = Returned (Result_error no_state)) \<and>
      (c = std_promise_already_satisfied \<longrightarrow>
         fst (GetResult st this) = Returned (Result_error promise_already_satisfied)) \<and>
      (c \<notin> {std_broken_promise, std_future_already_retrieved, std_no_state,
              std_promise_already_satisfied} \<longrightarrow>
         fst (GetResult st this) = Returned (Result_error kInvalidArgument))) \<and>
   (future_member this = Some s \<and> st s = Not_ready \<longrightarrow>
      fst (GetResult (abandon st s) this) = Returned (Result_error broken_promise)) \<and>
   (\<not> valid this \<longrightarrow> fst (GetResult st this) = Returned (Result_error no_state)) \<and>
   (fst (GetResult st this) = Returned (Result_value v) \<longrightarrow>
      fst (GetResult st' (snd (GetResult st this))) = Returned (Result_error no_state)) \<and>
   (future_member this = Some s \<and> st s = Not_ready \<longrightarrow>
      fst (set_value (snd (set_value st s v)) s v') = Some promise_already_satisfied \<and>
      fst (GetResult (snd (set_value (snd (set_value st s v)) s v')) this)
        = Returned (Result_value v))"
proof -
  have "fst (get st this) = Throws (Future_error c) \<longrightarrow>
      fst (GetResult st this) = Returned (Result_error (classify c))"
    by (simp add: GetResult_of_future_error)
  then have codes: "fst (get st this) = Throws (Future_error c) \<longrightarrow>
      (c = std_broken_promise \<longrightarrow>
         fst (GetResult st this) = Returned (Result_error broken_promise)) \<and>
      (c = std_future_already_retrieved \<longrightarrow>
         fst (GetResult st this) = Returned (Result_error future_already_retrieved)) \<and>
      (c = std_no_state \<longrightarrow>
         fst (GetResult st this) = Returned (Result_error no_state)) \<and>
      (c = std_promise_already_satisfied \<longrightarrow>
         fst (GetResult st this) = Returned (Result_error promise_already_satisfied)) \<and>
      (c \<notin> {std_broken_promise, std_future_already_retrieved, std_no_state,
              std_promise_already_satisfied} \<longrightarrow>
         fst (GetResult st this) = Returned (Result_error kInvalidArgument))"
    using classify_table(1-4) classify_table(5) [of c] by auto
  show ?thesis
    using codes GetResult_abandoned [of this s st] invalid_GetResult [of this st]
      GetResult_second_retrieval [of st this v st'] GetResult_second_publish [of this s st v v']
    by (intro conjI impI) (erule conjE | assumption | simp)+
qed

text \<open>
  The claim as stated fails on the second retrieval: after \<open>get\<close> has returned the value,
  \<open>GetResult\<close> returns \<open>no_state\<close>, not \<open>future_already_retrieved\<close>.
\<close>

theorem second_retrieval_classified_no_state:
  "observations get_then_GetResult initial_world =
     [Get_observed (Some 0) (Returns 42),
      GetResult_observed None (Returned (Result_error no_state))]"
  by (simp add: get_then_GetResult_def initial_world_def GetResult_def get_def set_value_def
      classify_def std_future_errc_defs)

theorem GetResult_classification_witness:
  "fst (get (\<lambda>s. Ready_exception (Future_error 99)) \<lparr>future_member = Some 0\<rparr>)
     = (Throws (Future_error 99) :: int call) \<and>
   fst (GetResult (\<lambda>s. (Ready_exception (Future_error 99) :: int shared_state))
          \<lparr>future_member = Some 0\<rparr>)
     = Returned (Result_error kInvalidArgument) \<and>
   fst (GetResult (abandon (\<lambda>s. (Not_ready :: int shared_state)) 0) \<lparr>future_member = Some 0\<rparr>)
     = Returned (Result_error broken_promise) \<and>
   fst (GetResult (\<lambda>s. (Not_ready :: int shared_state)) Future_default)
     = Returned (Result_error no_state) \<and>
   fst (GetResult (\<lambda>s. Ready_value (42::int))
          (snd (GetResult (\<lambda>s. Ready_value (42::int)) \<lparr>future_member = Some 0\<rparr>)))
     = Returned (Result_error no_state) \<and>
   fst (set_value (snd (set_value (\<lambda>s. Not_ready) 0 (5::int))) 0 6)
     = Some promise_already_satisfied \<and>
   fst (GetResult (snd (set_value (snd (set_value (\<lambda>s. Not_ready) 0 (5::int))) 0 6))
          \<lparr>future_member = Some 0\<rparr>)
     = Returned (Result_value 5)"
proof -
  have a: "fst (get (\<lambda>s. Ready_exception (Future_error 99)) \<lparr>future_member = Some 0\<rparr>)
     = (Throws (Future_error 99) :: int call)"
    by (simp add: get_def)
  have b: "(99::int) \<notin> {std_broken_promise, std_future_already_retrieved, std_no_state,
              std_promise_already_satisfied}"
    by (simp add: std_future_errc_defs)
  have c: "future_member \<lparr>future_member = Some 0\<rparr> = Some 0 \<and>
      (\<lambda>s. (Not_ready :: int shared_state)) 0 = Not_ready"
    by simp
  have d: "\<not> valid Future_default"
    by (simp add: valid_def Future_default_def)
  have e: "fst (GetResult (\<lambda>s. Ready_value (42::int)) \<lparr>future_member = Some 0\<rparr>)
      = Returned (Result_value 42)"
    by (simp add: GetResult_def)
  from GetResult_classification [of "\<lambda>s. Ready_exception (Future_error 99)"
      "\<lparr>future_member = Some 0\<rparr>" 99 0 42 "\<lambda>s. Ready_value 42" 42] a b
  have 1: "fst (GetResult (\<lambda>s. (Ready_exception (Future_error 99) :: int shared_state))
          \<lparr>future_member = Some 0\<rparr>)
     = Returned (Result_error kInvalidArgument)"
    by blast
  from GetResult_classification [of "\<lambda>s. (Not_ready :: int shared_state)"
      "\<lparr>future_member = Some 0\<rparr>" 0 0 5 "\<lambda>s. Not_ready" 6] c
  have 2: "fst (GetResult (abandon (\<lambda>s. (Not_ready :: int shared_state)) 0)
          \<lparr>future_member = Some 0\<rparr>)
     = Returned (Result_error broken_promise) \<and>
   fst (set_value (snd (set_value (\<lambda>s. Not_ready) 0 (5::int))) 0 6)
     = Some promise_already_satisfied \<and>
   fst (GetResult (snd (set_value (snd (set_value (\<lambda>s. Not_ready) 0 (5::int))) 0 6))
          \<lparr>future_member = Some 0\<rparr>)
     = Returned (Result_value 5)"
    by blast
  from GetResult_classification [of "\<lambda>s. (Not_ready :: int shared_state)"
      Future_default 0 0 0 "\<lambda>s. Not_ready" 0] d
  have 3: "fst (GetResult (\<lambda>s. (Not_ready :: int shared_state)) Future_default)
     = Returned (Result_error no_state)"
    by blast
  from GetResult_classification [of "\<lambda>s. Ready_value (42::int)"
      "\<lparr>future_member = Some 0\<rparr>" 0 0 42 "\<lambda>s. Ready_value 42" 0] e
  have 4: "fst (GetResult (\<lambda>s. Ready_value (42::int))
          (snd (GetResult (\<lambda>s. Ready_value (42::int)) \<lparr>future_member = Some 0\<rparr>)))
     = Returned (Result_error no_state)"
    by blast
  from a 1 2 3 4 show ?thesis by blast
qed

text \<open>
  C1. \<open>GetResult\<close> on a \<open>Future\<close> whose shared state is ready with a stored exception that
  is not a \<open>std::future_error\<close>: the handler does not match, the exception meets the
  \<open>noexcept\<close> boundary, and the call ends in \<open>std::terminate\<close> instead of returning
  a \<open>Result\<close>. Here a channel is created, the producer publishes an error, and the
  consumer calls \<open>GetResult\<close>.
\<close>

theorem GetResult_stored_exception_terminates:
  "observations publish_error_and_retrieve initial_world
     = [GetResult_observed (Some 0) Terminated]"
  by (simp add: publish_error_and_retrieve_def initial_world_def GetResult_def
      set_exception_def)

text \<open>
  C9. \<open>GetResult\<close> on a \<open>Future\<close> without shared state (\<open>valid()\<close> is false:
  default-constructed or moved-from) returns a \<open>Result\<close> that holds the \<open>no_state\<close>
  error, and the object stays as it was: the \<open>future_error\<close> that \<open>std::future::get\<close>
  throws is caught and classified.
\<close>

theorem GetResult_invalid_no_state:
  "\<not> valid this \<Longrightarrow> GetResult st this = (Returned (Result_error no_state), this)"
  by (cases this) (simp add: valid_def GetResult_def classify_def std_future_errc_defs)

theorem GetResult_invalid_no_state_witness:
  "\<not> valid Future_default \<and>
   \<not> valid (snd (Future_move \<lparr>future_member = Some 0\<rparr>)) \<and>
   GetResult (\<lambda>s. Ready_value (42::int)) Future_default
     = (Returned (Result_error no_state), Future_default) \<and>
   GetResult (\<lambda>s. Ready_value (42::int)) (snd (Future_move \<lparr>future_member = Some 0\<rparr>))
     = (Returned (Result_error no_state), snd (Future_move \<lparr>future_member = Some 0\<rparr>))"
proof -
  have a: "\<not> valid Future_default"
    by (simp add: valid_def Future_default_def)
  have b: "\<not> valid (snd (Future_move \<lparr>future_member = Some 0\<rparr>))"
    by (simp add: valid_def Future_move_def Future_default_def)
  from a b show ?thesis
    using GetResult_invalid_no_state [OF a, of "\<lambda>s. Ready_value (42::int)"]
      GetResult_invalid_no_state [OF b, of "\<lambda>s. Ready_value (42::int)"]
    by (intro conjI)
qed

section \<open>Move assignment\<close>

text \<open>
  C6. The body of the move assignment operator has no \<open>return\<close> statement: every call,
  whatever the two objects, flows off the end of the body, and so does not end by
  returning a reference to the object assigned to, as the declaration (\<open>Future&\<close>) and its
  documentation (\<open>@return *this\<close>) say.
\<close>

theorem Future_move_assign_flows_off_end:
  "snd (Future_move_assign h this other) = Flows_off_end \<and>
   snd (Future_move_assign h this other) \<noteq> Return_statement this"
  by (simp add: Future_move_assign_def split: option.splits)

section \<open>Ownership of shared states\<close>

lemma refs_allocated_owner:
  "refs_allocated w \<Longrightarrow> heap w a = Some f \<Longrightarrow> future_member f = Some s \<Longrightarrow> s < next_state w"
  unfolding refs_allocated_def by blast

lemma step_next_state_mono: "next_state w \<le> next_state (step e w)"
  by (cases e) (simp_all add: Future_move_assign_def split: option.splits)

lemma refs_allocated_step: "refs_allocated w \<Longrightarrow> refs_allocated (step e w)"
proof (cases e)
  case (Make_channel a)
  assume "refs_allocated w"
  with Make_channel show ?thesis
    by (auto simp: refs_allocated_def less_Suc_eq split: option.splits if_splits)
next
  case (Construct_move a b)
  assume "refs_allocated w"
  with Construct_move show ?thesis
    by (auto simp: refs_allocated_def Future_move_handles split: option.splits if_splits)
next
  case (Assign_move a b)
  assume "refs_allocated w"
  with Assign_move show ?thesis
    by (auto simp: refs_allocated_def Future_move_assign_def split: option.splits if_splits)
next
  case (Call_get a)
  assume "refs_allocated w"
  with Call_get show ?thesis
    by (auto simp: refs_allocated_def split: option.splits if_splits dest!: get_handle)
next
  case (Call_GetResult a)
  assume "refs_allocated w"
  with Call_GetResult show ?thesis
    by (auto simp: refs_allocated_def split: option.splits if_splits dest!: GetResult_handle)
qed (auto simp: refs_allocated_def Future_default_def split: option.splits if_splits)

lemma unique_owner_step:
  "refs_allocated w \<Longrightarrow> unique_owner w \<Longrightarrow> unique_owner (step e w)"
proof (cases e)
  case (Make_channel a)
  assume "refs_allocated w" "unique_owner w"
  with Make_channel show ?thesis
    by (fastforce simp: refs_allocated_def unique_owner_def split: option.splits if_splits)
next
  case (Construct_move a b)
  assume "refs_allocated w" "unique_owner w"
  with Construct_move show ?thesis
    by (auto simp: unique_owner_def Future_move_handles split: option.splits if_splits)
next
  case (Assign_move a b)
  assume "refs_allocated w" "unique_owner w"
  with Assign_move show ?thesis
    by (auto simp: unique_owner_def Future_move_assign_def split: option.splits if_splits)
next
  case (Call_get a)
  assume "refs_allocated w" "unique_owner w"
  with Call_get show ?thesis
    by (auto simp: unique_owner_def split: option.splits if_splits dest!: get_handle)
next
  case (Call_GetResult a)
  assume "refs_allocated w" "unique_owner w"
  with Call_GetResult show ?thesis
    by (auto simp: unique_owner_def split: option.splits if_splits dest!: GetResult_handle)
qed (auto simp: unique_owner_def Future_default_def split: option.splits if_splits)

lemma no_owner_step:
  "no_owner w s \<Longrightarrow> s < next_state w \<Longrightarrow> no_owner (step e w) s"
proof (cases e)
  case (Make_channel a)
  assume "no_owner w s" "s < next_state w"
  with Make_channel show ?thesis
    by (auto simp: no_owner_def split: option.splits if_splits)
next
  case (Construct_move a b)
  assume "no_owner w s" "s < next_state w"
  with Construct_move show ?thesis
    by (auto simp: no_owner_def Future_move_handles split: option.splits if_splits)
next
  case (Assign_move a b)
  assume "no_owner w s" "s < next_state w"
  with Assign_move show ?thesis
    by (auto simp: no_owner_def Future_move_assign_def split: option.splits if_splits)
next
  case (Call_get a)
  assume "no_owner w s" "s < next_state w"
  with Call_get show ?thesis
    by (auto simp: no_owner_def split: option.splits if_splits dest!: get_handle)
next
  case (Call_GetResult a)
  assume "no_owner w s" "s < next_state w"
  with Call_GetResult show ?thesis
    by (auto simp: no_owner_def split: option.splits if_splits dest!: GetResult_handle)
qed (auto simp: no_owner_def Future_default_def split: option.splits if_splits)

lemma initial_world_invariants:
  "refs_allocated initial_world" "unique_owner initial_world"
  by (simp_all add: refs_allocated_def unique_owner_def initial_world_def)

lemma run_invariants:
  "refs_allocated w \<Longrightarrow> unique_owner w \<Longrightarrow>
   refs_allocated (run es w) \<and> unique_owner (run es w)"
proof (induction es arbitrary: w)
  case Nil
  then show ?case by simp
next
  case (Cons e es)
  from Cons.IH [OF refs_allocated_step [OF Cons.prems(1)] unique_owner_step [OF Cons.prems]]
  show ?case by simp
qed


lemma Future_move_leaves_source_invalid:
  "\<not> valid (snd (Future_move other)) \<and>
   future_member (fst (Future_move other)) = future_member other"
  by (simp add: Future_move_handles valid_def)

lemma single_owner_reachable: "unique_owner (run es initial_world)"
  using run_invariants [OF initial_world_invariants] by blast

lemma step_Assign_move_undefined:
  "\<not> undefined_behaviour w \<Longrightarrow> heap w a = Some this \<Longrightarrow> heap w b = Some other \<Longrightarrow>
   step (Assign_move a b) w = w\<lparr>undefined_behaviour := True\<rparr>"
  by (simp add: Future_move_assign_def)

text \<open>
  C5. The header deletes the copy constructor and the copy assignment, and after a move
  construction the moved-from \<open>Future\<close> refers to no shared state
  (\<open>Future_move_leaves_source_invalid\<close>); as long as the program is defined, at most one
  live \<open>Future\<close> refers to a given shared state (\<open>single_owner_reachable\<close>). A move
  assignment, however, does not leave the program in a state of which this could be
  said: here a \<open>Future\<close> on a new channel is move-assigned to a default-constructed one;
  before the assignment the behaviour of the program is defined, the body of the
  operator flows off its end, and after it the behaviour is undefined.
\<close>

theorem move_assignment_undefined:
  "\<not> undefined_behaviour (run (butlast move_assign_program) initial_world) \<and>
   snd (Future_move_assign (heap (run (butlast move_assign_program) initial_world)) 1 0)
     = Flows_off_end \<and>
   undefined_behaviour (run move_assign_program initial_world)"
  by (simp add: move_assign_program_def initial_world_def Future_move_assign_def
      Future_default_def)

section \<open>Deliveries\<close>

lemma deliveries_from_Nil: "deliveries_from s [] w = []"
  by (simp add: deliveries_from_def deliveries_def)

lemma deliveries_from_Cons:
  "deliveries_from s (e # es) w = delivered_now s e w @ deliveries_from s es (step e w)"
  by (simp add: deliveries_from_def deliveries_def delivered_now_def)

lemma delivery_cases:
  "delivery ob = [] \<or> (\<exists>s v. delivery ob = [(s, v)])"
  by (cases ob rule: delivery.cases) simp_all

lemma observe_undefined: "undefined_behaviour w \<Longrightarrow> observe e w = []"
  by (cases e) simp_all

lemma delivered_now_undefined: "undefined_behaviour w \<Longrightarrow> delivered_now s e w = []"
  by (simp add: delivered_now_def observe_undefined)

lemma observe_length: "length (observe e w) \<le> 1"
  by (cases e) (simp_all split: option.splits)

lemma delivered_now_length: "length (delivered_now s e w) \<le> 1"
proof (cases "observe e w")
  case Nil
  then show ?thesis by (simp add: delivered_now_def)
next
  case (Cons ob obs)
  with observe_length [of e w] have "observe e w = [ob]" by simp
  then show ?thesis
    using delivery_cases [of ob] by (auto simp: delivered_now_def)
qed

lemma delivery_Get_observed:
  "delivery (Get_observed fu c) = [(s, v)] \<longleftrightarrow> fu = Some s \<and> c = Returns v"
  by (cases "Get_observed fu c" rule: delivery.cases) auto

lemma delivery_GetResult_observed:
  "delivery (GetResult_observed fu c) = [(s, v)] \<longleftrightarrow> fu = Some s \<and> c = Returned (Result_value v)"
  by (cases "GetResult_observed fu c" rule: delivery.cases) auto

lemma delivered_now_source:
  assumes "delivered_now s e w \<noteq> []"
  shows "\<exists>a this v. (e = Call_get a \<or> e = Call_GetResult a) \<and> heap w a = Some this \<and>
           future_member this = Some s \<and> fst (get (store w) this) = Returns v \<and>
           \<not> undefined_behaviour w"
proof -
  from assms have d: "\<not> undefined_behaviour w"
    using delivered_now_undefined [of w s e] by blast
  show ?thesis
  proof (cases e)
    case (Call_get a)
    with assms d obtain this where h: "heap w a = Some this"
      by (auto simp: delivered_now_def split: option.splits)
    let ?ob = "Get_observed (future_member this) (fst (get (store w) this))"
    from assms Call_get h d have "filter (\<lambda>d. fst d = s) (delivery ?ob) \<noteq> []"
      by (simp add: delivered_now_def)
    then obtain v where "delivery ?ob = [(s, v)]"
      using delivery_cases [of ?ob] by (auto split: if_splits)
    then have "future_member this = Some s \<and> fst (get (store w) this) = Returns v"
      by (simp add: delivery_Get_observed)
    with Call_get h d show ?thesis by blast
  next
    case (Call_GetResult a)
    with assms d obtain this where h: "heap w a = Some this"
      by (auto simp: delivered_now_def split: option.splits)
    let ?ob = "GetResult_observed (future_member this) (fst (GetResult (store w) this))"
    from assms Call_GetResult h d have "filter (\<lambda>d. fst d = s) (delivery ?ob) \<noteq> []"
      by (simp add: delivered_now_def)
    then obtain v where "delivery ?ob = [(s, v)]"
      using delivery_cases [of ?ob] by (auto split: if_splits)
    then have "future_member this = Some s \<and> fst (get (store w) this) = Returns v"
      by (simp add: delivery_GetResult_observed GetResult_value_is_get)
    with Call_GetResult h d show ?thesis by blast
  qed (use assms in \<open>simp_all add: delivered_now_def\<close>)
qed

lemma delivered_now_no_owner: "no_owner w s \<Longrightarrow> delivered_now s e w = []"
  using delivered_now_source [of s e w] unfolding no_owner_def by blast

lemma delivered_now_releases:
  assumes d: "delivered_now s e w \<noteq> []"
    and r: "refs_allocated w" and u: "unique_owner w"
  shows "no_owner (step e w) s \<and> s < next_state (step e w)"
proof -
  from delivered_now_source [OF d] obtain a this v
    where e: "e = Call_get a \<or> e = Call_GetResult a"
      and h: "heap w a = Some this"
      and m: "future_member this = Some s"
      and g: "fst (get (store w) this) = Returns v"
      and n: "\<not> undefined_behaviour w"
    by blast
  from g have rel: "future_member (snd (get (store w) this)) = None"
    by (rule get_Returns_releases)
  from e h n have hp: "heap (step e w) = (heap w)(a \<mapsto> snd (get (store w) this))"
    by (auto simp: GetResult_same_handle_as_get)
  from e h n have ns: "next_state (step e w) = next_state w"
    by auto
  have others: "\<And>b g. b \<noteq> a \<Longrightarrow> heap w b = Some g \<Longrightarrow> future_member g \<noteq> Some s"
    using u h m unfolding unique_owner_def by blast
  have "no_owner (step e w) s"
    unfolding no_owner_def hp using rel others by auto
  moreover have "s < next_state (step e w)"
    using refs_allocated_owner [OF r h m] ns by simp
  ultimately show ?thesis by simp
qed

lemma no_owner_deliveries:
  "no_owner w s \<Longrightarrow> s < next_state w \<Longrightarrow> deliveries_from s es w = []"
proof (induction es arbitrary: w)
  case Nil
  show ?case by (rule deliveries_from_Nil)
next
  case (Cons e es)
  have "s < next_state (step e w)"
    using Cons.prems(2) step_next_state_mono [of w e] by simp
  with Cons.IH [OF no_owner_step [OF Cons.prems]]
  have "deliveries_from s es (step e w) = []" by simp
  with delivered_now_no_owner [OF Cons.prems(1)] show ?case
    by (simp add: deliveries_from_Cons)
qed

lemma at_most_one_delivery:
  "refs_allocated w \<Longrightarrow> unique_owner w \<Longrightarrow> length (deliveries_from s es w) \<le> 1"
proof (induction es arbitrary: w)
  case Nil
  show ?case by (simp add: deliveries_from_Nil)
next
  case (Cons e es)
  show ?case
  proof (cases "delivered_now s e w = []")
    case True
    with Cons.IH [OF refs_allocated_step [OF Cons.prems(1)] unique_owner_step [OF Cons.prems]]
    show ?thesis by (simp add: deliveries_from_Cons)
  next
    case False
    from delivered_now_releases [OF False Cons.prems]
    have "deliveries_from s es (step e w) = []"
      by (simp add: no_owner_deliveries)
    with delivered_now_length [of s e w] show ?thesis
      by (simp add: deliveries_from_Cons)
  qed
qed


lemma no_owner_run:
  "no_owner w s \<Longrightarrow> s < next_state w \<Longrightarrow> no_owner (run es w) s"
proof (induction es arbitrary: w)
  case Nil
  then show ?case by simp
next
  case (Cons e es)
  have "s < next_state (step e w)"
    using Cons.prems(2) step_next_state_mono [of w e] by simp
  with Cons.IH [OF no_owner_step [OF Cons.prems]] show ?case by simp
qed

lemma delivered_state_released:
  "refs_allocated w \<Longrightarrow> unique_owner w \<Longrightarrow> deliveries_from s es w \<noteq> [] \<Longrightarrow>
   no_owner (run es w) s"
proof (induction es arbitrary: w)
  case Nil
  then show ?case by (simp add: deliveries_from_Nil)
next
  case (Cons e es)
  show ?case
  proof (cases "delivered_now s e w = []")
    case True
    with Cons.prems(3) have "deliveries_from s es (step e w) \<noteq> []"
      by (simp add: deliveries_from_Cons)
    with Cons.IH [OF refs_allocated_step [OF Cons.prems(1)]
        unique_owner_step [OF Cons.prems(1,2)]]
    show ?thesis by simp
  next
    case False
    from delivered_now_releases [OF False Cons.prems(1,2)]
    have "no_owner (run es (step e w)) s"
      by (simp add: no_owner_run)
    then show ?thesis by simp
  qed
qed

text \<open>
  C3 (as amended). Whatever the producer and the program do, from the initial state on,
  at most one call of \<open>get\<close> or \<open>GetResult\<close> is delivered the value of a given shared
  state, and once it was delivered no live \<open>Future\<close> refers to that state. The call that is
  delivered the value leaves its \<open>Future\<close> without shared state, so that a second
  retrieval through it does not yield the value again: \<open>get\<close> throws
  \<open>future_error(no_state)\<close> and \<open>GetResult\<close> returns the \<open>no_state\<close> error.
\<close>

theorem value_delivered_at_most_once:
  "length (deliveries_from s es initial_world) \<le> 1 \<and>
   (deliveries_from s es initial_world \<noteq> [] \<longrightarrow> no_owner (run es initial_world) s) \<and>
   (fst (get st this) = Returns v \<or> fst (GetResult st this) = Returned (Result_value v) \<longrightarrow>
      snd (GetResult st this) = snd (get st this) \<and>
      \<not> valid (snd (get st this)) \<and>
      fst (get st' (snd (get st this))) = Throws (Future_error std_no_state) \<and>
      fst (GetResult st' (snd (get st this))) = Returned (Result_error no_state))"
proof -
  have "fst (get st this) = Returns v \<or> fst (GetResult st this) = Returned (Result_value v) \<longrightarrow>
      snd (GetResult st this) = snd (get st this) \<and>
      \<not> valid (snd (get st this)) \<and>
      fst (get st' (snd (get st this))) = Throws (Future_error std_no_state) \<and>
      fst (GetResult st' (snd (get st this))) = Returned (Result_error no_state)"
    using get_Returns_second [of st this v st'] GetResult_value_is_get [of st this v]
    by (auto simp: GetResult_same_handle_as_get)
  then show ?thesis
    using at_most_one_delivery [OF initial_world_invariants, of s es]
      delivered_state_released [OF initial_world_invariants, of s es]
    by blast
qed

text \<open>
  The claim as stated fails on the error kind: the second \<open>GetResult\<close> returns
  \<open>no_state\<close>, not \<open>future_already_retrieved\<close>.
\<close>

theorem second_retrieval_no_state:
  "observations retrieve_twice initial_world =
     [GetResult_observed (Some 0) (Returned (Result_value 42)),
      GetResult_observed None (Returned (Result_error no_state))]"
  by (simp add: retrieve_twice_def initial_world_def GetResult_def set_value_def
      classify_def std_future_errc_defs)

theorem value_delivered_at_most_once_witness:
  "length (deliveries_from 0 retrieve_twice initial_world) \<le> 1 \<and>
   deliveries_from 0 retrieve_twice initial_world = [42] \<and>
   no_owner (run retrieve_twice initial_world) 0 \<and>
   fst (get (\<lambda>s. Ready_value (42::int)) \<lparr>future_member = Some 0\<rparr>) = Returns 42 \<and>
   fst (GetResult (\<lambda>s. Ready_value (42::int))
          (snd (get (\<lambda>s. Ready_value (42::int)) \<lparr>future_member = Some 0\<rparr>)))
     = Returned (Result_error no_state)"
proof -
  have d: "deliveries_from 0 retrieve_twice initial_world = [42]"
    by (simp add: deliveries_from_def deliveries_def retrieve_twice_def initial_world_def
        GetResult_def set_value_def classify_def std_future_errc_defs)
  have g: "fst (get (\<lambda>s. Ready_value (42::int)) \<lparr>future_member = Some 0\<rparr>) = Returns 42"
    by (simp add: get_def)
  from d have ne: "deliveries_from 0 retrieve_twice initial_world \<noteq> []"
    by simp
  from value_delivered_at_most_once [of 0 retrieve_twice "\<lambda>s. Ready_value 42"
      "\<lparr>future_member = Some 0\<rparr>" 42 "\<lambda>s. Ready_value 42"] ne g
  have "length (deliveries_from 0 retrieve_twice initial_world) \<le> 1 \<and>
    no_owner (run retrieve_twice initial_world) 0 \<and>
    fst (GetResult (\<lambda>s. Ready_value (42::int))
          (snd (get (\<lambda>s. Ready_value (42::int)) \<lparr>future_member = Some 0\<rparr>)))
     = Returned (Result_error no_state)"
    by blast
  with d g show ?thesis by blast
qed

section \<open>Readiness\<close>

lemma is_ready_get: "is_ready st this = Some True \<Longrightarrow> fst (get st this) \<noteq> Blocks"
  by (auto simp: is_ready_def get_def split: option.splits shared_state.splits)

lemma is_ready_state:
  "future_member this = Some s \<Longrightarrow> is_ready st this = Some (st s \<noteq> Not_ready)"
  by (simp add: is_ready_def split: shared_state.splits)

lemma producer_step_keeps_ready:
  "st s \<noteq> Not_ready \<Longrightarrow> producer_step pe st s = st s"
  by (cases pe) (auto simp: set_value_def set_exception_def abandon_def split: shared_state.splits)

lemma step_keeps_ready: "store w s \<noteq> Not_ready \<Longrightarrow> store (step e w) s = store w s"
  by (cases e) (simp_all add: producer_step_keeps_ready Future_move_assign_def split: option.splits)

lemma run_keeps_ready: "store w s \<noteq> Not_ready \<Longrightarrow> store (run es w) s = store w s"
  by (induction es arbitrary: w) (simp_all add: step_keeps_ready)


text \<open>
  C8. Readiness is monotonic. Once \<open>is_ready()\<close> has returned true on a \<open>Future\<close>,
  then after any further events (of the producer or on \<open>Future\<close> objects) \<open>is_ready()\<close>
  returns true on every \<open>Future\<close> that refers to the same shared state.
\<close>

theorem is_ready_monotonic:
  "is_ready (store w) this = Some True \<Longrightarrow> future_member that = future_member this \<Longrightarrow>
   is_ready (store (run es w)) that = Some True"
proof -
  assume r: "is_ready (store w) this = Some True"
    and m: "future_member that = future_member this"
  from r obtain s where s: "future_member this = Some s"
    by (auto simp: is_ready_def split: option.splits)
  with r have "store w s \<noteq> Not_ready"
    by (simp add: is_ready_state)
  then have "store (run es w) s \<noteq> Not_ready"
    by (simp add: run_keeps_ready)
  with s m show ?thesis by (simp add: is_ready_state)
qed

theorem is_ready_monotonic_witness:
  "is_ready (store (run [Make_channel 0, Producer (Publish_value 0 (42::int))] initial_world))
     \<lparr>future_member = Some 0\<rparr> = Some True \<and>
   is_ready
     (store (run [Producer (Publish_value 0 7), Producer (Abandon 0), Construct_move 1 0]
        (run [Make_channel 0, Producer (Publish_value 0 (42::int))] initial_world)))
     \<lparr>future_member = Some 0\<rparr> = Some True"
proof -
  have r: "is_ready (store (run [Make_channel 0, Producer (Publish_value 0 (42::int))] initial_world))
     \<lparr>future_member = Some 0\<rparr> = Some True"
    by (simp add: is_ready_def initial_world_def set_value_def)
  from r is_ready_monotonic [OF r refl] show ?thesis by blast
qed

section \<open>Waiting with a timeout\<close>

lemma wait_for_heap: "heap (fst (snd (wait_for w this d pes))) = heap w"
proof (induction w this d pes rule: wait_for.induct)
  case (1 w this d pe pes)
  then show ?case
    by (cases "is_ready (store w) this") (auto split: bool.splits)
qed (simp_all split: option.splits bool.splits)

lemma wait_for_not_waiting:
  "is_ready (store w) this \<noteq> Some False \<Longrightarrow> snd (wait_for w this d pes) = (w, pes)"
  by (cases "(w, this, d, pes)" rule: wait_for.cases)
     (auto split: option.splits bool.splits)

lemma wait_for_waiting:
  "is_ready (store w) this = Some False \<Longrightarrow>
   wait_for w this (Suc d) (pe # pes) = wait_for (step (Producer pe) w) this d pes"
  by simp

lemma wait_for_window:
  "\<exists>k\<le>d. snd (wait_for w this d pes) = (run (map Producer (take k pes)) w, drop k pes)"
proof (induction d arbitrary: w pes)
  case 0
  have "snd (wait_for w this 0 pes) = (run (map Producer (take 0 pes)) w, drop 0 pes)"
    by (simp split: option.splits bool.splits)
  then show ?case by blast
next
  case (Suc d)
  show ?case
  proof (cases "is_ready (store w) this = Some False \<and> pes \<noteq> []")
    case True
    then obtain pe pes' where p: "pes = pe # pes'" by (cases pes) auto
    from Suc [of "step (Producer pe) w" pes'] obtain k where k: "k \<le> d"
      "snd (wait_for (step (Producer pe) w) this d pes')
         = (run (map Producer (take k pes')) (step (Producer pe) w), drop k pes')"
      by blast
    from True p have "wait_for w this (Suc d) pes = wait_for (step (Producer pe) w) this d pes'"
      by (simp only: wait_for_waiting)
    with k p have "Suc k \<le> Suc d \<and> snd (wait_for w this (Suc d) pes)
         = (run (map Producer (take (Suc k) pes)) w, drop (Suc k) pes)"
      by (simp del: step.simps wait_for.simps)
    then show ?thesis by blast
  next
    case False
    have "snd (wait_for w this (Suc d) pes) = (w, pes)"
    proof (cases pes)
      case Nil
      then show ?thesis by (simp split: option.splits bool.splits)
    next
      case (Cons pe pes')
      with False have "is_ready (store w) this \<noteq> Some False" by simp
      then show ?thesis by (rule wait_for_not_waiting)
    qed
    then have "snd (wait_for w this (Suc d) pes)
         = (run (map Producer (take 0 pes)) w, drop 0 pes)"
      by simp
    then show ?thesis by blast
  qed
qed

lemma wait_for_status:
  assumes m: "future_member this = Some s"
  shows "fst (wait_for w this d pes)
     = Some (if store (run (map Producer (take d pes)) w) s = Not_ready then timeout else ready)"
proof (induction d arbitrary: w pes)
  case 0
  from m show ?case by (simp add: is_ready_state)
next
  case (Suc d)
  show ?case
  proof (cases pes)
    case Nil
    with m show ?thesis by (simp add: is_ready_state)
  next
    case (Cons pe pes')
    show ?thesis
    proof (cases "store w s = Not_ready")
      case True
      with m have "is_ready (store w) this = Some False"
        by (simp add: is_ready_state)
      then have "wait_for w this (Suc d) (pe # pes') = wait_for (step (Producer pe) w) this d pes'"
        by (rule wait_for_waiting)
      with Suc [of "step (Producer pe) w" pes'] Cons show ?thesis
        by (simp del: step.simps wait_for.simps)
    next
      case False
      then have "store (run (map Producer (take (Suc d) pes)) w) s \<noteq> Not_ready"
        by (simp only: run_keeps_ready not_False_eq_True)
      moreover from False m have "is_ready (store w) this = Some True"
        by (simp add: is_ready_state)
      then have "fst (wait_for w this (Suc d) (pe # pes')) = Some ready"
        by simp
      ultimately show ?thesis using Cons by simp
    qed
  qed
qed

lemma get_after_publish:
  "future_member this = Some s \<Longrightarrow> s < next_state w \<Longrightarrow> store w s = Not_ready \<Longrightarrow>
   get (store (step (Producer (Publish_value s v)) w)) this = (Returns v, \<lparr>future_member = None\<rparr>)"
  by (simp add: get_def set_value_def)

text \<open>
  C7. On a valid \<open>Future\<close>, \<open>wait_for(d)\<close> returns \<open>ready\<close> if the shared state is ready
  once the producer steps of the window of \<open>d\<close> ticks are made, and \<open>timeout\<close> otherwise.
  It does not consume the result: no \<open>Future\<close> object is changed, and the program state
  at its return is the one reached by the producer steps made while it waited. In
  particular \<open>wait_for(0)\<close> before publication returns \<open>timeout\<close> and changes nothing,
  and after a publication that follows, \<open>get()\<close> returns the published value.
\<close>

theorem wait_for_does_not_consume:
  "future_member this = Some s \<Longrightarrow>
   fst (wait_for w this d pes)
     = Some (if store (run (map Producer (take d pes)) w) s = Not_ready then timeout else ready) \<and>
   heap (fst (snd (wait_for w this d pes))) = heap w \<and>
   (\<exists>k\<le>d. snd (wait_for w this d pes) = (run (map Producer (take k pes)) w, drop k pes)) \<and>
   (store w s = Not_ready \<longrightarrow> wait_for w this 0 pes = (Some timeout, w, pes)) \<and>
   (store w s = Not_ready \<longrightarrow> s < next_state w \<longrightarrow>
      get (store (step (Producer (Publish_value s v)) w)) this
        = (Returns v, \<lparr>future_member = None\<rparr>))"
proof -
  assume m: "future_member this = Some s"
  have "store w s = Not_ready \<longrightarrow> wait_for w this 0 pes = (Some timeout, w, pes)"
    using m by (simp add: is_ready_state)
  moreover have "store w s = Not_ready \<longrightarrow> s < next_state w \<longrightarrow>
      get (store (step (Producer (Publish_value s v)) w)) this
        = (Returns v, \<lparr>future_member = None\<rparr>)"
    using m get_after_publish [of this s w v] by blast
  ultimately show ?thesis
    using wait_for_status [OF m, of w d pes] wait_for_heap [of w this d pes]
      wait_for_window [of d w this pes]
    by (intro conjI)
qed

theorem wait_for_does_not_consume_witness:
  "future_member \<lparr>future_member = Some 0\<rparr> = Some 0 \<and>
   store (step (Make_channel 0) (initial_world :: int world)) 0 = Not_ready \<and>
   0 < next_state (step (Make_channel 0) (initial_world :: int world)) \<and>
   wait_for (step (Make_channel 0) initial_world) \<lparr>future_member = Some 0\<rparr> 0
       [Publish_value 0 (42::int)]
     = (Some timeout, step (Make_channel 0) initial_world, [Publish_value 0 42]) \<and>
   get (store (step (Producer (Publish_value 0 42)) (step (Make_channel 0) initial_world)))
       \<lparr>future_member = Some 0\<rparr>
     = (Returns (42::int), \<lparr>future_member = None\<rparr>)"
proof -
  have m: "future_member \<lparr>future_member = Some 0\<rparr> = Some 0" by simp
  have n: "store (step (Make_channel 0) (initial_world :: int world)) 0 = Not_ready"
    by (simp add: initial_world_def)
  have l: "0 < next_state (step (Make_channel 0) (initial_world :: int world))"
    by (simp add: initial_world_def)
  from wait_for_does_not_consume [OF m, of "step (Make_channel 0) (initial_world :: int world)"
      0 "[Publish_value 0 42]" 42] m n l
  show ?thesis by blast
qed

section \<open>Continuations and unwrapping\<close>


lemma unwrap_created: "created (fst (unwrap eng tgt u)) = created eng"
  by (cases "(eng, tgt, u)" rule: unwrap.cases) (auto split: shared_state.splits)

lemma fire_fst:
  "fst (fire eng s r) =
     (case registered eng s of
        None \<Rightarrow> eng\<lparr>cells := (cells eng)(s := ready_with r)\<rparr>
      | Some (func, tgt) \<Rightarrow>
          fst (unwrap (eng\<lparr>cells := (cells eng)(s := ready_with r),
                           registered := (registered eng)(s := None)\<rparr>) tgt (func r)))"
  by (simp add: fire_def Let_def split: option.splits prod.splits)


lemma fire_created: "created (fst (fire eng s r)) = created eng"
  by (simp add: fire_fst unwrap_created split: option.splits)



















end
